theory Spec2Isabelle
  imports Complex_Main "HOL-Library.AList" "HOL-Library.Sublist"
begin

section \<open>JavaScript values\<close>

text \<open>
  The values that \<open>JSON.parse\<close> produces. A number keeps its numeric value; the handlers
  below only ever test a number for being zero. An object is the list of its own
  properties in insertion order.
\<close>

datatype json =
    JNull
  | JBool bool
  | JNum rat
  | JStr string
  | JArr "json list"
  | JObj "(string \<times> json) list"

text \<open>What a \<open>try\<close> block can catch in the modelled code.\<close>

datatype js_error = SyntaxError | TypeError | NetworkError

text \<open>JavaScript truthiness, as \<open>||\<close>, \<open>&&\<close>, \<open>!\<close> and \<open>if\<close> evaluate it.\<close>

fun truthy :: "json \<Rightarrow> bool" where
  "truthy JNull = False"
| "truthy (JBool b) = b"
| "truthy (JNum n) = (n \<noteq> 0)"
| "truthy (JStr s) = (s \<noteq> [])"
| "truthy (JArr xs) = True"
| "truthy (JObj kvs) = True"

text \<open>
  A value that may be \<open>undefined\<close> is a \<open>json option\<close>, \<open>None\<close> being \<open>undefined\<close>
  (which is falsy).
\<close>

fun truthy_opt :: "json option \<Rightarrow> bool" where
  "truthy_opt None = False"
| "truthy_opt (Some v) = truthy v"

text \<open>
  The property read \<open>v.k\<close> for the property names the program uses (\<open>toolName\<close>,
  \<open>input\<close>, \<open>success\<close>, \<open>status\<close>, \<open>channel\<close>, \<open>threadTs\<close>, \<open>user\<close>), none of
  which is a built-in property of a string, number, boolean or array: reading from
  \<open>null\<close> throws a TypeError, reading from an object gives the property or
  \<open>undefined\<close>, reading from any other value gives \<open>undefined\<close>.
\<close>

fun get_prop :: "json \<Rightarrow> string \<Rightarrow> js_error + json option" where
  "get_prop JNull k = Inl TypeError"
| "get_prop (JObj kvs) k = Inr (map_of kvs k)"
| "get_prop (JBool b) k = Inr None"
| "get_prop (JNum n) k = Inr None"
| "get_prop (JStr s) k = Inr None"
| "get_prop (JArr xs) k = Inr None"

text \<open>The expression \<open>v || d\<close> with \<open>d\<close> a defined value.\<close>

fun or_else :: "json option \<Rightarrow> json \<Rightarrow> json" where
  "or_else None d = d"
| "or_else (Some v) d = (if truthy v then v else d)"

text \<open>\<open>s.split('/')\<close>: the pieces between the slashes, empty pieces included.\<close>

fun split_slash :: "string \<Rightarrow> string list" where
  "split_slash [] = [] # []"
| "split_slash (c # cs) =
     (if c = CHR ''/'' then [] # split_slash cs
      else (case split_slash cs of
              [] \<Rightarrow> [c] # []
            | p # ps \<Rightarrow> (c # p) # ps))"

text \<open>\<open>xs[i]\<close> on an array: \<open>undefined\<close> out of range.\<close>

definition at_index :: "'a list \<Rightarrow> nat \<Rightarrow> 'a option" where
  "at_index xs i = (if i < length xs then Some (xs ! i) else None)"

text \<open>Decimal rendering of a port number inside a template string.\<close>

fun string_of_nat :: "nat \<Rightarrow> string" where
  "string_of_nat n =
     (if n < 10 then [char_of (48 + n)]
      else string_of_nat (n div 10) @ [char_of (48 + n mod 10)])"

declare string_of_nat.simps [simp del]

section \<open>The approval registry of ApprovalManager\<close>

datatype approval_status = Pending | Approved | Denied

fun status_string :: "approval_status \<Rightarrow> string" where
  "status_string Pending = ''pending''"
| "status_string Approved = ''approved''"
| "status_string Denied = ''denied''"

text \<open>
  The interface \<open>PendingApproval\<close>. Dates are milliseconds since the epoch
  (\<open>getTime()\<close>); the optional \<open>resolvedAt\<close> is \<open>None\<close> while the property is absent.
  \<open>toolName\<close> is declared a string, but the register route stores whatever truthy
  value the body carries, so the model keeps a JSON value.
\<close>

record PendingApproval =
  approvalId :: string
  toolName :: json
  input :: json
  status :: approval_status
  registeredAt :: int
  resolvedAt :: "int option"

text \<open>
  \<open>pendingApprovals\<close> is a \<open>Map<string, PendingApproval>\<close>: its entries in insertion
  order. \<open>get\<close> is \<^const>\<open>map_of\<close>, \<open>set\<close> is \<^const>\<open>AList.update\<close> (an existing key
  keeps its place), \<open>delete\<close> is \<^const>\<open>AList.delete\<close>, \<open>size\<close> is \<^const>\<open>length\<close>.
  A Map holds each key once.
\<close>

type_synonym registry = "(string \<times> PendingApproval) list"

definition wf_registry :: "registry \<Rightarrow> bool" where
  "wf_registry reg = distinct (map fst reg)"

section \<open>The HTTP endpoint of ApprovalManager.start\<close>

text \<open>
  A request as the handler sees it: \<open>req.method\<close>, \<open>url.pathname\<close> of the parsed URL and
  the complete body (the register route acts once the body has been read).
\<close>

record http_request =
  http_method :: string
  pathname :: string
  body :: string

record http_response =
  statusCode :: nat
  headers :: "(string \<times> string) list"
  payload :: "json option"

definition cors_headers :: "(string \<times> string) list" where
  "cors_headers =
     [(''Access-Control-Allow-Origin'', ''*''),
      (''Access-Control-Allow-Methods'', ''GET, POST, OPTIONS''),
      (''Access-Control-Allow-Headers'', ''Content-Type'')]"

text \<open>\<open>res.writeHead(code, {'Content-Type': 'application/json'}); res.end(JSON.stringify(j))\<close>\<close>

definition json_response :: "nat \<Rightarrow> json \<Rightarrow> http_response" where
  "json_response c j =
     \<lparr>statusCode = c,
      headers = cors_headers @ [(''Content-Type'', ''application/json'')],
      payload = Some j\<rparr>"

text \<open>
  The register route. \<open>JSON_parse\<close> is the platform's \<open>JSON.parse\<close>, \<open>None\<close> where it
  throws a SyntaxError; every exception of the \<open>try\<close> block ends in the \<open>catch\<close>.
\<close>

definition registerRoute ::
  "(string \<Rightarrow> json option) \<Rightarrow> int \<Rightarrow> string \<Rightarrow> string \<Rightarrow> registry \<Rightarrow> http_response \<times> registry" where
  "registerRoute JSON_parse now aid bdy reg =
     (let invalid = (json_response 400
                       (JObj [(''success'', JBool False), (''error'', JStr ''Invalid JSON'')]), reg)
      in case (if bdy \<noteq> [] then JSON_parse bdy else Some (JObj [])) of
           None \<Rightarrow> invalid
         | Some data \<Rightarrow>
             (case get_prop data ''toolName'' of
                Inl e \<Rightarrow> invalid
              | Inr tn \<Rightarrow>
                  (case get_prop data ''input'' of
                     Inl e \<Rightarrow> invalid
                   | Inr inp \<Rightarrow>
                       (let approval =
                              \<lparr>approvalId = aid,
                               toolName = or_else tn (JStr ''unknown''),
                               input = or_else inp (JObj []),
                               status = Pending,
                               registeredAt = now,
                               resolvedAt = None\<rparr>
                        in (json_response 200
                              (JObj [(''success'', JBool True), (''approvalId'', JStr aid)]),
                            AList.update aid approval reg)))))"

definition statusRoute :: "string \<Rightarrow> registry \<Rightarrow> http_response \<times> registry" where
  "statusRoute aid reg =
     (case map_of reg aid of
        Some approval \<Rightarrow>
          (json_response 200
             (JObj [(''success'', JBool True),
                    (''status'', JStr (status_string (status approval))),
                    (''toolName'', toolName approval)]), reg)
      | None \<Rightarrow>
          (json_response 404
             (JObj [(''success'', JBool False), (''error'', JStr ''Approval not found'')]), reg))"

text \<open>
  The approve and deny routes assign to the record found in the Map, whatever its
  status is.
\<close>

definition approveRoute :: "int \<Rightarrow> string \<Rightarrow> registry \<Rightarrow> http_response \<times> registry" where
  "approveRoute now aid reg =
     (case map_of reg aid of
        Some approval \<Rightarrow>
          (json_response 200 (JObj [(''success'', JBool True), (''message'', JStr ''Approved'')]),
           AList.update aid (approval\<lparr>status := Approved, resolvedAt := Some now\<rparr>) reg)
      | None \<Rightarrow>
          (json_response 404
             (JObj [(''success'', JBool False),
                    (''error'', JStr ''Approval not found or already processed'')]), reg))"

definition denyRoute :: "int \<Rightarrow> string \<Rightarrow> registry \<Rightarrow> http_response \<times> registry" where
  "denyRoute now aid reg =
     (case map_of reg aid of
        Some approval \<Rightarrow>
          (json_response 200 (JObj [(''success'', JBool True), (''message'', JStr ''Denied'')]),
           AList.update aid (approval\<lparr>status := Denied, resolvedAt := Some now\<rparr>) reg)
      | None \<Rightarrow>
          (json_response 404
             (JObj [(''success'', JBool False),
                    (''error'', JStr ''Approval not found or already processed'')]), reg))"

text \<open>The body of the cleanup branch: \<open>pathParts[1]\<close> is deleted when it is truthy.\<close>

definition cleanupRoute :: "string list \<Rightarrow> registry \<Rightarrow> http_response \<times> registry" where
  "cleanupRoute pathParts reg =
     (json_response 200 (JObj [(''success'', JBool True)]),
      (case at_index pathParts 1 of
         Some aid \<Rightarrow> (if aid \<noteq> [] then AList.delete aid reg else reg)
       | None \<Rightarrow> reg))"

text \<open>\<open>pathParts[0] === name && pathParts[1]\<close>\<close>

definition route_matches :: "string list \<Rightarrow> string \<Rightarrow> bool" where
  "route_matches pathParts name =
     (at_index pathParts 0 = Some name \<and>
      (case at_index pathParts 1 of Some aid \<Rightarrow> aid \<noteq> [] | None \<Rightarrow> False))"

text \<open>
  The request listener, branch by branch in the order of the source. \<open>now\<close> is the value
  of \<open>new Date()\<close> while the request is handled. Where \<open>route_matches\<close> holds,
  \<open>pathParts[1]\<close> exists, and \<open>pathParts ! 1\<close> is that element.
\<close>

definition handleRequest ::
  "(string \<Rightarrow> json option) \<Rightarrow> int \<Rightarrow> http_request \<Rightarrow> registry \<Rightarrow> http_response \<times> registry" where
  "handleRequest JSON_parse now req reg =
     (if http_method req = ''OPTIONS''
      then (\<lparr>statusCode = 200, headers = cors_headers, payload = None\<rparr>, reg)
      else
        (let pathParts = filter (\<lambda>p. p \<noteq> []) (split_slash (pathname req)) in
         if http_method req = ''GET'' \<and> pathname req = ''/health''
         then (json_response 200
                 (JObj [(''status'', JStr ''ok''),
                        (''pendingApprovals'', JNum (of_nat (length reg)))]), reg)
         else if http_method req = ''POST'' \<and> route_matches pathParts ''register''
         then registerRoute JSON_parse now (pathParts ! 1) (body req) reg
         else if http_method req = ''GET'' \<and> route_matches pathParts ''status''
         then statusRoute (pathParts ! 1) reg
         else if http_method req = ''POST'' \<and> route_matches pathParts ''approve''
         then approveRoute now (pathParts ! 1) reg
         else if http_method req = ''POST'' \<and> route_matches pathParts ''deny''
         then denyRoute now (pathParts ! 1) reg
         else if http_method req = ''POST'' \<and> pathname req = ''/cleanup''
         then cleanupRoute pathParts reg
         else (json_response 404 (JObj [(''error'', JStr ''Not found'')]), reg)))"

text \<open>The cleanup interval's callback; \<open>now\<close> is \<open>Date.now()\<close>.\<close>

definition sweep_step :: "int \<Rightarrow> string \<times> PendingApproval \<Rightarrow> registry \<Rightarrow> registry" where
  "sweep_step fiveMinutesAgo entry reg =
     (if registeredAt (snd entry) < fiveMinutesAgo then AList.delete (fst entry) reg else reg)"

definition sweep :: "int \<Rightarrow> registry \<Rightarrow> registry" where
  "sweep now reg = fold (sweep_step (now - 5 * 60 * 1000)) reg reg"

text \<open>The direct methods.\<close>

definition resolveApproval :: "int \<Rightarrow> string \<Rightarrow> bool \<Rightarrow> registry \<Rightarrow> bool \<times> registry" where
  "resolveApproval now aid approved reg =
     (case map_of reg aid of
        Some approval \<Rightarrow>
          (if status approval = Pending
           then (True,
                 AList.update aid
                   (approval\<lparr>status := (if approved then Approved else Denied),
                             resolvedAt := Some now\<rparr>) reg)
           else (False, reg))
      | None \<Rightarrow> (False, reg))"

definition getApprovalStatus :: "string \<Rightarrow> registry \<Rightarrow> approval_status option" where
  "getApprovalStatus aid reg = map_option status (map_of reg aid)"

text \<open>
  The ways the registry changes while the process runs: a request to the endpoint, a call of
  \<open>resolveApproval\<close>, a tick of the cleanup interval. Each carries the clock's value.
\<close>

datatype event =
    Request int http_request
  | Resolve int string bool
  | Sweep int

fun apply_event :: "(string \<Rightarrow> json option) \<Rightarrow> event \<Rightarrow> registry \<Rightarrow> registry" where
  "apply_event JSON_parse (Request now req) reg = snd (handleRequest JSON_parse now req reg)"
| "apply_event JSON_parse (Resolve now aid approved) reg = snd (resolveApproval now aid approved reg)"
| "apply_event JSON_parse (Sweep now) reg = sweep now reg"

definition run_events :: "(string \<Rightarrow> json option) \<Rightarrow> event list \<Rightarrow> registry \<Rightarrow> registry" where
  "run_events JSON_parse evs reg = fold (apply_event JSON_parse) evs reg"

text \<open>
  The value of \<open>JSON.parse\<close> on the bodies that the concrete scenarios below send; on the
  empty string and on \<open>{bad\<close> it throws. The scenarios use no other body.
\<close>

definition sample_parse :: "string \<Rightarrow> json option" where
  "sample_parse s =
     (if s = ''null'' then Some JNull
      else if s = ''{}'' then Some (JObj [])
      else if s = ''{\"toolName\":\"bash\"}'' then Some (JObj [(''toolName'', JStr ''bash'')])
      else None)"

section \<open>The requester: PermissionMCPServer, polling variant\<close>

datatype behavior = Allow | Deny

record PermissionResponse =
  behavior :: behavior
  updatedInput :: "json option"
  message :: "string option"

definition approved_by_user :: PermissionResponse where
  "approved_by_user = \<lparr>behavior = Allow, updatedInput = None, message = Some ''Approved by user''\<rparr>"

definition denied_by_user :: PermissionResponse where
  "denied_by_user = \<lparr>behavior = Deny, updatedInput = None, message = Some ''Denied by user''\<rparr>"

definition timed_out :: PermissionResponse where
  "timed_out =
     \<lparr>behavior = Deny, updatedInput = None, message = Some ''Permission request timed out''\<rparr>"

text \<open>
  \<open>registerApproval\<close>: the argument is what \<open>fetch\<close> followed by \<open>response.json()\<close>
  yields, \<open>Inl\<close> when either throws. The result is the value of \<open>result.success\<close>, or
  \<open>false\<close> from the \<open>catch\<close>.
\<close>

definition registerApproval :: "js_error + json \<Rightarrow> json option" where
  "registerApproval reply =
     (case reply of
        Inl e \<Rightarrow> Some (JBool False)
      | Inr result \<Rightarrow>
          (case get_prop result ''success'' of
             Inl e \<Rightarrow> Some (JBool False)
           | Inr v \<Rightarrow> v))"

text \<open>
  One pass through the \<open>try\<close> block of \<open>pollApprovalStatus\<close>: \<open>Some\<close> is a \<open>return\<close>,
  \<open>None\<close> falls through to the wait (also from the \<open>catch\<close>).
\<close>

definition poll_decision :: "js_error + json \<Rightarrow> PermissionResponse option" where
  "poll_decision reply =
     (case reply of
        Inl e \<Rightarrow> None
      | Inr result \<Rightarrow>
          (case get_prop result ''success'' of
             Inl e \<Rightarrow> None
           | Inr success \<Rightarrow>
               (case get_prop result ''status'' of
                  Inl e \<Rightarrow> None
                | Inr st \<Rightarrow>
                    if truthy_opt success \<and> truthy_opt st
                    then (if st = Some (JStr ''approved'') then Some approved_by_user
                          else if st = Some (JStr ''denied'') then Some denied_by_user
                          else None)
                    else None)))"

text \<open>
  What the loop meets: the reply to its \<open>n\<close>-th status query, the milliseconds that query
  takes, and the milliseconds by which the \<open>n\<close>-th timer fires late. The clock
  (\<open>Date.now()\<close>) advances only by these and by the poll interval.
\<close>

record poll_env =
  status_reply :: "nat \<Rightarrow> js_error + json"
  fetch_ms :: "nat \<Rightarrow> nat"
  timer_late :: "nat \<Rightarrow> nat"

definition pollInterval :: nat where
  "pollInterval = 1000"

record poll_result =
  response :: PermissionResponse
  finishedAt :: int
  queries :: nat

function poll_loop :: "poll_env \<Rightarrow> int \<Rightarrow> int \<Rightarrow> int \<Rightarrow> nat \<Rightarrow> poll_result" where
  "poll_loop env startTime timeoutMs now n =
     (if now - startTime < timeoutMs
      then (case poll_decision (status_reply env n) of
              Some r \<Rightarrow>
                \<lparr>response = r, finishedAt = now + int (fetch_ms env n), queries = Suc n\<rparr>
            | None \<Rightarrow>
                poll_loop env startTime timeoutMs
                  (now + int (fetch_ms env n) + int pollInterval + int (timer_late env n))
                  (Suc n))
      else \<lparr>response = timed_out, finishedAt = now, queries = n\<rparr>)"
  by pat_completeness auto
termination
  by (relation "measure (\<lambda>(env, startTime, timeoutMs, now, n). nat (startTime + timeoutMs - now))")
     (auto simp: pollInterval_def)

text \<open>\<open>startTime\<close> is \<open>Date.now()\<close> on entry.\<close>

definition pollApprovalStatus :: "poll_env \<Rightarrow> int \<Rightarrow> int \<Rightarrow> poll_result" where
  "pollApprovalStatus env startTime timeoutMs = poll_loop env startTime timeoutMs startTime 0"

text \<open>
  \<open>handlePermissionPrompt\<close>. Its surroundings: the environment variable, the generated
  id, the reply to the register call, the result of \<open>chat.postMessage\<close> (\<open>Inl\<close> when it
  throws), the polling environment, and whether \<open>chat.update\<close> throws. The calls it makes
  are recorded in order; the rendered Slack blocks are left out.
\<close>

datatype effect =
    RegisterCall string
  | PostMessage json "json option"
  | PollStatus string
  | UpdateMessage
  | CleanupCall string

record prompt_env =
  SLACK_CONTEXT :: "string option"
  newApprovalId :: string
  register_reply :: "js_error + json"
  post_result :: "js_error + json"
  polling :: poll_env
  poll_start :: int
  update_throws :: bool

definition failed_to_register :: PermissionResponse where
  "failed_to_register =
     \<lparr>behavior = Deny, updatedInput = None,
      message = Some ''Failed to register approval request''\<rparr>"

definition error_occurred :: PermissionResponse where
  "error_occurred =
     \<lparr>behavior = Deny, updatedInput = None,
      message = Some ''Error occurred while requesting permission''\<rparr>"

text \<open>
  \<open>slackContextStr ? JSON.parse(slackContextStr) : {}\<close> followed by the destructuring,
  which throws on \<open>null\<close>.
\<close>

definition read_slack_context :: "(string \<Rightarrow> json option) \<Rightarrow> string option \<Rightarrow> js_error + json" where
  "read_slack_context JSON_parse slackContextStr =
     (case (case slackContextStr of
              None \<Rightarrow> Some (JObj [])
            | Some s \<Rightarrow> if s \<noteq> [] then JSON_parse s else Some (JObj [])) of
        None \<Rightarrow> Inl SyntaxError
      | Some slackContext \<Rightarrow> if slackContext = JNull then Inl TypeError else Inr slackContext)"

definition own_prop :: "json \<Rightarrow> string \<Rightarrow> json option" where
  "own_prop v k = (case get_prop v k of Inl e \<Rightarrow> None | Inr p \<Rightarrow> p)"

text \<open>
  \<open>input\<close> is \<open>None\<close> when the arguments carry no \<open>input\<close>: then \<open>JSON.stringify\<close> gives
  \<open>undefined\<close> and reading its \<open>length\<close> throws outside the \<open>try\<close>.
\<close>

definition handlePermissionPrompt ::
  "(string \<Rightarrow> json option) \<Rightarrow> prompt_env \<Rightarrow> string \<Rightarrow> json option
     \<Rightarrow> effect list \<times> (js_error + PermissionResponse)" where
  "handlePermissionPrompt JSON_parse env tool_name inp =
     (case read_slack_context JSON_parse (SLACK_CONTEXT env) of
        Inl e \<Rightarrow> ([], Inl e)
      | Inr slackContext \<Rightarrow>
          (let channel = own_prop slackContext ''channel'';
               thread_ts = own_prop slackContext ''threadTs'';
               user = own_prop slackContext ''user'';
               aid = newApprovalId env;
               registered = registerApproval (register_reply env)
           in if \<not> truthy_opt registered
              then ([RegisterCall aid], Inr failed_to_register)
              else
                (case inp of
                   None \<Rightarrow> ([RegisterCall aid], Inl TypeError)
                 | Some i \<Rightarrow>
                     (let post = PostMessage
                                   (if truthy_opt channel then the channel
                                    else or_else user (JStr ''general''))
                                   thread_ts
                      in case post_result env of
                           Inl e \<Rightarrow> ([RegisterCall aid, post, CleanupCall aid], Inr error_occurred)
                         | Inr result \<Rightarrow>
                             (let resp = response (pollApprovalStatus (polling env) (poll_start env)
                                                     (5 * 60 * 1000))
                              in case get_prop result ''ts'' of
                                   Inl e \<Rightarrow>
                                     ([RegisterCall aid, post, PollStatus aid, CleanupCall aid],
                                      Inr error_occurred)
                                 | Inr ts \<Rightarrow>
                                     if truthy_opt ts
                                     then (if update_throws env
                                           then ([RegisterCall aid, post, PollStatus aid,
                                                  UpdateMessage, CleanupCall aid],
                                                 Inr error_occurred)
                                           else ([RegisterCall aid, post, PollStatus aid,
                                                  UpdateMessage, CleanupCall aid], Inr resp))
                                     else ([RegisterCall aid, post, PollStatus aid,
                                            CleanupCall aid], Inr resp))))))"

section \<open>Bind failures of the two HTTP servers\<close>

datatype log_level = LogInfo | LogWarn | LogError

datatype server_effect =
    Log log_level string
  | Listen nat

text \<open>
  The \<open>error\<close> listeners; \<open>code\<close> is \<open>error.code\<close>. The first is the one of
  \<open>PermissionMCPServer.startHttpServer\<close> (the server that holds the resolvers itself), the
  second the one of \<open>ApprovalManager.start\<close>.
\<close>

definition startHttpServer_onError :: "nat \<Rightarrow> string option \<Rightarrow> server_effect list" where
  "startHttpServer_onError port code =
     (if code = Some ''EADDRINUSE''
      then [Log LogWarn (''Port '' @ string_of_nat port @ '' already in use, trying next port''),
            Listen (port + 1)]
      else [Log LogError ''HTTP server error''])"

definition ApprovalManager_onError :: "nat \<Rightarrow> string option \<Rightarrow> server_effect list" where
  "ApprovalManager_onError port code =
     (if code = Some ''EADDRINUSE''
      then [Log LogError (''Port '' @ string_of_nat port @
                          '' already in use. Cannot start approval server.'')]
      else [Log LogError ''HTTP server error''])"

section \<open>Predicates and sample data used by the statements\<close>

text \<open>A record carries \<open>resolvedAt\<close> exactly when it is no longer pending.\<close>

definition stamped :: "PendingApproval \<Rightarrow> bool" where
  "stamped a = ((resolvedAt a \<noteq> None) = (status a \<noteq> Pending))"

text \<open>
  A reply to a status query that tells the waiter of a terminal status: a truthy
  \<open>success\<close> together with the status \<open>approved\<close> or \<open>denied\<close>.
\<close>

definition reports_terminal :: "js_error + json \<Rightarrow> bool" where
  "reports_terminal reply =
     (case reply of
        Inl e \<Rightarrow> False
      | Inr result \<Rightarrow>
          truthy_opt (own_prop result ''success'') \<and>
          (own_prop result ''status'' = Some (JStr ''approved'') \<or>
           own_prop result ''status'' = Some (JStr ''denied'')))"

text \<open>
  A failed registration: the transport or the decoding of the reply threw, or the reply
  carries no truthy \<open>success\<close>.
\<close>

definition registration_failed :: "js_error + json \<Rightarrow> bool" where
  "registration_failed reply =
     (case reply of
        Inl e \<Rightarrow> True
      | Inr result \<Rightarrow> \<not> truthy_opt (own_prop result ''success''))"

text \<open>An endpoint that answers every status query at once with \<open>pending\<close>, and exact timers.\<close>

definition always_pending :: poll_env where
  "always_pending =
     \<lparr>status_reply = (\<lambda>n. Inr (JObj [(''success'', JBool True), (''status'', JStr ''pending''),
                                      (''toolName'', JStr ''bash'')])),
      fetch_ms = (\<lambda>n. 0),
      timer_late = (\<lambda>n. 0)\<rparr>"

text \<open>An endpoint that answers every status query with \<open>pending\<close> after one second.\<close>

definition slow_endpoint :: poll_env where
  "slow_endpoint =
     \<lparr>status_reply = (\<lambda>n. Inr (JObj [(''success'', JBool True), (''status'', JStr ''pending''),
                                      (''toolName'', JStr ''bash'')])),
      fetch_ms = (\<lambda>n. 1000),
      timer_late = (\<lambda>n. 0)\<rparr>"

text \<open>A requester whose register call cannot reach the endpoint.\<close>

definition unreachable_endpoint :: prompt_env where
  "unreachable_endpoint =
     \<lparr>SLACK_CONTEXT = None, newApprovalId = ''approval_1_abc'',
      register_reply = Inl NetworkError,
      post_result = Inr (JObj [(''ts'', JStr ''1.0''), (''channel'', JStr ''C1'')]),
      polling = always_pending, poll_start = 0, update_throws = False\<rparr>"

text \<open>
  A run: two registrations, an approval over HTTP, a late \<open>resolveApproval\<close> with the
  opposite verdict, and a sweep.
\<close>

definition scenario :: "event list" where
  "scenario =
     [Request 0 \<lparr>http_method = ''POST'', pathname = ''/register/a1'', body = ''{}''\<rparr>,
      Request 1 \<lparr>http_method = ''POST'', pathname = ''/register/b2'', body = []\<rparr>,
      Request 2 \<lparr>http_method = ''POST'', pathname = ''/approve/a1'', body = []\<rparr>,
      Resolve 3 ''a1'' False,
      Sweep 4]"

text \<open>
  Three records seen at time 300001: one registered more than five minutes before, one
  exactly five minutes before, one later.
\<close>

definition three_records :: registry where
  "three_records =
     [(''old'', \<lparr>approvalId = ''old'', toolName = JStr ''bash'', input = JObj [],
                 status = Approved, registeredAt = 0, resolvedAt = Some 10\<rparr>),
      (''edge'', \<lparr>approvalId = ''edge'', toolName = JStr ''bash'', input = JObj [],
                  status = Denied, registeredAt = 1, resolvedAt = Some 10\<rparr>),
      (''new'', \<lparr>approvalId = ''new'', toolName = JStr ''bash'', input = JObj [],
                 status = Pending, registeredAt = 200000, resolvedAt = None\<rparr>)]"

section \<open>Routing\<close>

lemmas route_defs =
  handleRequest_def route_matches_def at_index_def registerRoute_def statusRoute_def
  approveRoute_def denyRoute_def cleanupRoute_def json_response_def

text \<open>A POST whose path starts with \<open>/register/<id>\<close> reaches the register route.\<close>

lemma handle_register:
  assumes "http_method req = ''POST''"
    and "filter (\<lambda>p. p \<noteq> []) (split_slash (pathname req)) = ''register'' # aid # rest"
  shows "handleRequest P now req reg = registerRoute P now aid (body req) reg"
proof -
  have ne: "aid \<noteq> []"
  proof -
    have "aid \<in> set (filter (\<lambda>p. p \<noteq> []) (split_slash (pathname req)))"
      using assms(2) by simp
    then show ?thesis by simp
  qed
  show ?thesis using assms ne
    by (simp add: handleRequest_def route_matches_def at_index_def)
qed

text \<open>
  No path of the form \<open>/cleanup/<id>\<close> equals \<open>/cleanup\<close>, and its first part is
  none of the other route names: every such POST ends in the final 404.
\<close>

lemma cleanup_with_id_is_not_found:
  "handleRequest P now \<lparr>http_method = ''POST'', pathname = ''/cleanup/'' @ aid, body = b\<rparr> reg
     = (json_response 404 (JObj [(''error'', JStr ''Not found'')]), reg)"
  by (simp add: handleRequest_def route_matches_def at_index_def)

text \<open>The one path that reaches the cleanup branch carries no id, so nothing is deleted.\<close>

lemma bare_cleanup_deletes_nothing:
  "handleRequest P now \<lparr>http_method = ''POST'', pathname = ''/cleanup'', body = b\<rparr> reg
     = (json_response 200 (JObj [(''success'', JBool True)]), reg)"
  by (simp add: route_defs)

section \<open>Resolution\<close>

text \<open>\<open>resolveApproval\<close> leaves a record that is no longer pending alone and returns false.\<close>

lemma resolveApproval_first_wins:
  "getApprovalStatus aid reg = Some s \<Longrightarrow> s \<noteq> Pending \<Longrightarrow>
     resolveApproval now aid approved reg = (False, reg)"
  by (auto simp: getApprovalStatus_def resolveApproval_def split: option.splits)

lemma resolveApproval_twice:
  "fst (resolveApproval t1 aid a1 reg) \<Longrightarrow>
     resolveApproval t2 aid a2 (snd (resolveApproval t1 aid a1 reg))
       = (False, snd (resolveApproval t1 aid a1 reg))"
  by (auto simp: resolveApproval_def update_conv' split: option.splits if_splits)

text \<open>The approve and deny routes overwrite a record of any status.\<close>

lemma approveRoute_overwrites:
  "map_of reg aid = Some a \<Longrightarrow>
     map_of (snd (approveRoute now aid reg)) aid
       = Some (a\<lparr>status := Approved, resolvedAt := Some now\<rparr>)"
  by (simp add: approveRoute_def update_conv')

lemma denyRoute_overwrites:
  "map_of reg aid = Some a \<Longrightarrow>
     map_of (snd (denyRoute now aid reg)) aid
       = Some (a\<lparr>status := Denied, resolvedAt := Some now\<rparr>)"
  by (simp add: denyRoute_def update_conv')

text \<open>
  C1. Once a record has left pending, no later approve or deny changes it. The call of
  \<open>resolveApproval\<close> keeps to this (above); the HTTP routes do not: after \<open>POST /register/a1\<close> and
  \<open>POST /approve/a1\<close>, a \<open>POST /deny/a1\<close> is answered with success and the stored
  status becomes denied, with a new \<open>resolvedAt\<close>.
\<close>

theorem http_deny_overwrites_approved:
  "(let reg0 = snd (handleRequest sample_parse 0
                      \<lparr>http_method = ''POST'', pathname = ''/register/a1'', body = ''{}''\<rparr> []);
        reg1 = snd (handleRequest sample_parse 1
                      \<lparr>http_method = ''POST'', pathname = ''/approve/a1'', body = []\<rparr> reg0);
        r = handleRequest sample_parse 2
              \<lparr>http_method = ''POST'', pathname = ''/deny/a1'', body = []\<rparr> reg1
    in getApprovalStatus ''a1'' reg1 = Some Approved
     \<and> fst r = json_response 200 (JObj [(''success'', JBool True), (''message'', JStr ''Denied'')])
     \<and> getApprovalStatus ''a1'' (snd r) = Some Denied
     \<and> map_option resolvedAt (map_of (snd r) ''a1'') = Some (Some 2))"
  by (simp add: route_defs sample_parse_def Let_def getApprovalStatus_def)

text \<open>
  C2. \<open>POST /cleanup/{id}\<close> answers \<open>{success: true}\<close> and removes the record. In the
  code the request is answered 404 \<open>{error: 'Not found'}\<close> and the record stays, so that
  a following \<open>GET /status/a1\<close> still finds it.
\<close>

theorem cleanup_with_id_keeps_record:
  "(let reg = snd (handleRequest sample_parse 0
                     \<lparr>http_method = ''POST'', pathname = ''/register/a1'', body = ''{}''\<rparr> []);
        r = handleRequest sample_parse 1
              \<lparr>http_method = ''POST'', pathname = ''/cleanup/a1'', body = []\<rparr> reg
    in fst r = json_response 404 (JObj [(''error'', JStr ''Not found'')])
     \<and> snd r = reg
     \<and> getApprovalStatus ''a1'' (snd r) = Some Pending
     \<and> statusCode (fst (handleRequest sample_parse 2
                           \<lparr>http_method = ''GET'', pathname = ''/status/a1'', body = []\<rparr> (snd r)))
         = 200)"
  by (simp add: route_defs sample_parse_def Let_def getApprovalStatus_def)

section \<open>Health\<close>

lemma length_update_present:
  "map_of al k = Some v \<Longrightarrow> length (AList.update k w al) = length al"
  by (induction al) (auto split: if_splits)

text \<open>
  C9. \<open>GET /health\<close> reports the size of the Map, that is the number of all stored
  records; approving or denying a record, over HTTP or directly, keeps it in the Map,
  so it is still counted.
\<close>

theorem health_counts_every_record:
  "handleRequest P now \<lparr>http_method = ''GET'', pathname = ''/health'', body = b\<rparr> reg
     = (json_response 200
          (JObj [(''status'', JStr ''ok''), (''pendingApprovals'', JNum (of_nat (length reg)))]),
        reg)
   \<and> length (snd (approveRoute now aid reg)) = length reg
   \<and> length (snd (denyRoute now aid reg)) = length reg
   \<and> length (snd (resolveApproval now aid approved reg)) = length reg"
  by (simp add: handleRequest_def approveRoute_def denyRoute_def resolveApproval_def
      length_update_present split: option.splits)

text \<open>After a registration and its approval the health route reports one record.\<close>

lemma health_after_approval:
  "fst (handleRequest sample_parse 2 \<lparr>http_method = ''GET'', pathname = ''/health'', body = []\<rparr>
          (run_events sample_parse
             [Request 0 \<lparr>http_method = ''POST'', pathname = ''/register/a1'', body = ''{}''\<rparr>,
              Request 1 \<lparr>http_method = ''POST'', pathname = ''/approve/a1'', body = []\<rparr>] []))
     = json_response 200 (JObj [(''status'', JStr ''ok''), (''pendingApprovals'', JNum 1)])"
  by (simp add: run_events_def route_defs sample_parse_def)

section \<open>Bind failure\<close>

text \<open>The listener of \<open>ApprovalManager.start\<close> only logs an error.\<close>

lemma ApprovalManager_never_rebinds: "Listen p \<notin> set (ApprovalManager_onError port code)"
  by (simp add: ApprovalManager_onError_def)

lemma ApprovalManager_reports_bind_failure:
  "ApprovalManager_onError 3847 (Some ''EADDRINUSE'')
     = [Log LogError ''Port 3847 already in use. Cannot start approval server.'']"
  unfolding ApprovalManager_onError_def by code_simp

text \<open>
  C8. On EADDRINUSE the endpoint fails loudly and listens on no other port. The listener
  of \<open>PermissionMCPServer.startHttpServer\<close> logs a warning and listens on the next port.
\<close>

theorem startHttpServer_listens_on_next_port:
  "startHttpServer_onError 3847 (Some ''EADDRINUSE'')
     = [Log LogWarn ''Port 3847 already in use, trying next port'', Listen 3848]"
  unfolding startHttpServer_onError_def by code_simp

section \<open>Registration\<close>

text \<open>An empty body is not parsed: it registers like \<open>{}\<close>, whatever \<open>JSON.parse\<close> would say.\<close>

lemma register_empty_body:
  assumes "http_method req = ''POST''"
    and "filter (\<lambda>p. p \<noteq> []) (split_slash (pathname req)) = ''register'' # aid # rest"
    and "body req = []"
  shows "handleRequest P now req reg
           = (json_response 200 (JObj [(''success'', JBool True), (''approvalId'', JStr aid)]),
              AList.update aid
                \<lparr>approvalId = aid, toolName = JStr ''unknown'', input = JObj [],
                 status = Pending, registeredAt = now, resolvedAt = None\<rparr> reg)"
  using assms(3) by (simp add: handle_register[OF assms(1,2)] registerRoute_def)

text \<open>
  C4, as stated: every register request whose body is not valid JSON is answered with a
  client error and creates no record. The empty body is not valid JSON (\<open>JSON.parse('')\<close>
  throws), yet the request is answered 200 and a record is stored.
\<close>

theorem register_empty_body_is_accepted:
  "sample_parse [] = None \<and>
   handleRequest sample_parse 5 \<lparr>http_method = ''POST'', pathname = ''/register/a1'', body = []\<rparr> []
     = (json_response 200 (JObj [(''success'', JBool True), (''approvalId'', JStr ''a1'')]),
        [(''a1'', \<lparr>approvalId = ''a1'', toolName = JStr ''unknown'', input = JObj [],
                   status = Pending, registeredAt = 5, resolvedAt = None\<rparr>)])"
  by (simp add: route_defs sample_parse_def)

text \<open>
  C4, amended: every register request whose body is not empty and not valid JSON is
  answered 400 \<open>{success: false, error: 'Invalid JSON'}\<close>, and the registry is the one
  before the request.
\<close>

theorem register_malformed_body_rejected:
  assumes "http_method req = ''POST''"
    and "filter (\<lambda>p. p \<noteq> []) (split_slash (pathname req)) = ''register'' # aid # rest"
    and "body req \<noteq> []"
    and "JSON_parse (body req) = None"
  shows "handleRequest JSON_parse now req reg
           = (json_response 400
                (JObj [(''success'', JBool False), (''error'', JStr ''Invalid JSON'')]),
              reg)"
  using assms(3,4) by (simp add: handle_register[OF assms(1,2)] registerRoute_def)

theorem register_malformed_body_rejected_witness:
  "handleRequest sample_parse 5
     \<lparr>http_method = ''POST'', pathname = ''/register/a1'', body = ''{bad''\<rparr> three_records
     = (json_response 400
          (JObj [(''success'', JBool False), (''error'', JStr ''Invalid JSON'')]),
        three_records)"
  by (rule register_malformed_body_rejected[where rest = "[]" and aid = "''a1''"])
     (simp_all add: sample_parse_def)

text \<open>
  C10, as stated: every register request whose body is valid JSON without \<open>toolName\<close> or
  \<open>input\<close> succeeds. The body \<open>null\<close> is valid JSON and has neither; reading
  \<open>data.toolName\<close> throws, the \<open>catch\<close> answers 400, and nothing is stored.
\<close>

theorem register_null_body_is_rejected:
  "sample_parse ''null'' = Some JNull \<and>
   handleRequest sample_parse 5
     \<lparr>http_method = ''POST'', pathname = ''/register/a1'', body = ''null''\<rparr> []
     = (json_response 400
          (JObj [(''success'', JBool False), (''error'', JStr ''Invalid JSON'')]),
        [])"
  by (simp add: route_defs sample_parse_def)

text \<open>
  C10, amended: every register request whose body is empty, or is valid JSON other than
  \<open>null\<close>, is answered \<open>{success: true, approvalId}\<close> and stores a pending record
  without \<open>resolvedAt\<close>, whose \<open>toolName\<close> is \<open>data.toolName || 'unknown'\<close> and whose
  \<open>input\<close> is \<open>data.input || {}\<close>: a missing \<open>toolName\<close> is stored as \<open>'unknown'\<close>, a
  missing \<open>input\<close> as \<open>{}\<close>. Here \<open>data\<close> is the parsed body, \<open>{}\<close> for the empty one.
\<close>

theorem register_defaults_missing_fields:
  assumes "http_method req = ''POST''"
    and "filter (\<lambda>p. p \<noteq> []) (split_slash (pathname req)) = ''register'' # aid # rest"
    and "(body req = [] \<and> data = JObj []) \<or>
         (body req \<noteq> [] \<and> JSON_parse (body req) = Some data)"
    and "data \<noteq> JNull"
  shows "fst (handleRequest JSON_parse now req reg)
           = json_response 200 (JObj [(''success'', JBool True), (''approvalId'', JStr aid)])
    \<and> map_of (snd (handleRequest JSON_parse now req reg)) aid
           = Some \<lparr>approvalId = aid,
                   toolName = or_else (own_prop data ''toolName'') (JStr ''unknown''),
                   input = or_else (own_prop data ''input'') (JObj []),
                   status = Pending, registeredAt = now, resolvedAt = None\<rparr>
    \<and> (own_prop data ''toolName'' = None \<longrightarrow>
          map_option toolName (map_of (snd (handleRequest JSON_parse now req reg)) aid)
            = Some (JStr ''unknown''))
    \<and> (own_prop data ''input'' = None \<longrightarrow>
          map_option input (map_of (snd (handleRequest JSON_parse now req reg)) aid)
            = Some (JObj []))"
  using assms(3,4) unfolding handle_register[OF assms(1,2)]
  by (cases data) (auto simp: registerRoute_def update_conv' own_prop_def)

theorem register_defaults_missing_fields_witness:
  "fst (handleRequest sample_parse 5
          \<lparr>http_method = ''POST'', pathname = ''/register/a1'', body = ''{\"toolName\":\"bash\"}''\<rparr> [])
     = json_response 200 (JObj [(''success'', JBool True), (''approvalId'', JStr ''a1'')])
   \<and> map_of (snd (handleRequest sample_parse 5
          \<lparr>http_method = ''POST'', pathname = ''/register/a1'', body = ''{\"toolName\":\"bash\"}''\<rparr> []))
        ''a1''
     = Some \<lparr>approvalId = ''a1'', toolName = JStr ''bash'', input = JObj [],
             status = Pending, registeredAt = 5, resolvedAt = None\<rparr>"
  using register_defaults_missing_fields
          [where req = "\<lparr>http_method = ''POST'', pathname = ''/register/a1'',
                         body = ''{\"toolName\":\"bash\"}''\<rparr>"
             and aid = "''a1''" and rest = "[]"
             and data = "JObj [(''toolName'', JStr ''bash'')]"
             and JSON_parse = sample_parse and now = 5 and reg = "[]"]
  by (simp add: sample_parse_def own_prop_def)

section \<open>The sweep\<close>

lemma delete_filter_distinct:
  assumes "distinct (map fst reg0)" "(k, v) \<in> set reg0"
  shows "AList.delete k (filter Q reg0) = filter (\<lambda>e. Q e \<and> e \<noteq> (k, v)) reg0"
proof -
  have "\<And>e. e \<in> set reg0 \<Longrightarrow> (fst e \<noteq> k) = (e \<noteq> (k, v))"
    using assms by (metis eq_key_imp_eq_value fst_conv prod.collapse)
  then have "filter (\<lambda>e. Q e \<and> k \<noteq> fst e) reg0 = filter (\<lambda>e. Q e \<and> e \<noteq> (k, v)) reg0"
    by (intro filter_cong) auto
  then show ?thesis
    by (simp add: AList.delete_eq case_prod_beta)
qed

text \<open>
  The loop visits the entries \<open>xs\<close> of the Map while deleting from it: what is left of
  the Map after the visit are the entries that were not both visited and stale.
\<close>

lemma fold_sweep_step:
  assumes "distinct (map fst reg0)" "set xs \<subseteq> set reg0"
  shows "fold (sweep_step t) xs (filter Q reg0)
           = filter (\<lambda>e. Q e \<and> \<not> (e \<in> set xs \<and> registeredAt (snd e) < t)) reg0"
  using assms(2)
proof (induction xs arbitrary: Q)
  case Nil
  then show ?case by simp
next
  case (Cons x xs)
  obtain k v where x: "x = (k, v)" by (cases x)
  from Cons.prems have mem: "(k, v) \<in> set reg0" and sub: "set xs \<subseteq> set reg0"
    by (auto simp: x)
  show ?case
  proof (cases "registeredAt v < t")
    case True
    have "fold (sweep_step t) (x # xs) (filter Q reg0)
            = fold (sweep_step t) xs (filter (\<lambda>e. Q e \<and> e \<noteq> (k, v)) reg0)"
      using True by (simp add: sweep_step_def x delete_filter_distinct[OF assms(1) mem])
    also have "\<dots> = filter (\<lambda>e. (Q e \<and> e \<noteq> (k, v))
                               \<and> \<not> (e \<in> set xs \<and> registeredAt (snd e) < t)) reg0"
      by (rule Cons.IH[OF sub])
    also have "\<dots> = filter (\<lambda>e. Q e \<and> \<not> (e \<in> set (x # xs) \<and> registeredAt (snd e) < t)) reg0"
      using True by (intro filter_cong) (auto simp: x)
    finally show ?thesis .
  next
    case False
    have "fold (sweep_step t) (x # xs) (filter Q reg0) = fold (sweep_step t) xs (filter Q reg0)"
      using False by (simp add: sweep_step_def x)
    also have "\<dots> = filter (\<lambda>e. Q e \<and> \<not> (e \<in> set xs \<and> registeredAt (snd e) < t)) reg0"
      by (rule Cons.IH[OF sub])
    also have "\<dots> = filter (\<lambda>e. Q e \<and> \<not> (e \<in> set (x # xs) \<and> registeredAt (snd e) < t)) reg0"
      using False by (intro filter_cong) (auto simp: x)
    finally show ?thesis .
  qed
qed

lemma sweep_eq_filter:
  assumes "wf_registry reg"
  shows "sweep now reg = filter (\<lambda>e. \<not> registeredAt (snd e) < now - 300000) reg"
proof -
  have "fold (sweep_step (now - 300000)) reg (filter (\<lambda>e. True) reg)
          = filter (\<lambda>e. True \<and> \<not> (e \<in> set reg \<and> registeredAt (snd e) < now - 300000)) reg"
    using assms by (intro fold_sweep_step) (auto simp: wf_registry_def)
  also have "\<dots> = filter (\<lambda>e. \<not> registeredAt (snd e) < now - 300000) reg"
    by (intro filter_cong) auto
  finally show ?thesis by (simp add: sweep_def)
qed

lemma map_of_filter_values:
  assumes "distinct (map fst reg)"
  shows "map_of (filter (\<lambda>e. P (snd e)) reg) aid
          = (case map_of reg aid of None \<Rightarrow> None | Some a \<Rightarrow> if P a then Some a else None)"
  using assms
proof (induction reg)
  case Nil
  then show ?case by simp
next
  case (Cons x reg)
  obtain k v where x: "x = (k, v)" by (cases x)
  from Cons.prems have notin: "k \<notin> fst ` set reg" and d: "distinct (map fst reg)"
    by (auto simp: x)
  show ?case
  proof (cases "aid = k")
    case True
    have "map_of (filter (\<lambda>e. P (snd e)) reg) k = None"
      using notin by (auto simp: map_of_eq_None_iff)
    then show ?thesis using True by (simp add: x)
  next
    case False
    then show ?thesis using Cons.IH[OF d] by (simp add: x)
  qed
qed

text \<open>
  C6. One run of the sweep at time \<open>now\<close> removes exactly the records registered more
  than five minutes before \<open>now\<close>, whatever their status, and keeps every other entry as
  it is and where it is: the Map afterwards is the Map before without the stale entries,
  and looking an id up gives the record of before unless that record is stale.
\<close>

theorem sweep_removes_exactly_stale:
  assumes "wf_registry reg"
  shows "sweep now reg = filter (\<lambda>e. now - registeredAt (snd e) \<le> 5 * 60 * 1000) reg
       \<and> (\<forall>aid. map_of (sweep now reg) aid
             = (case map_of reg aid of
                  None \<Rightarrow> None
                | Some a \<Rightarrow> if now - registeredAt a > 5 * 60 * 1000 then None else Some a))"
proof -
  have eq: "sweep now reg = filter (\<lambda>e. now - registeredAt (snd e) \<le> 5 * 60 * 1000) reg"
    unfolding sweep_eq_filter[OF assms] by (intro filter_cong) auto
  have d: "distinct (map fst reg)" using assms by (simp add: wf_registry_def)
  show ?thesis
    unfolding eq map_of_filter_values[OF d, of "\<lambda>a. now - registeredAt a \<le> 5 * 60 * 1000"]
    by (auto split: option.splits)
qed

theorem sweep_removes_exactly_stale_witness:
  "wf_registry three_records
   \<and> sweep 300001 three_records
       = [(''edge'', \<lparr>approvalId = ''edge'', toolName = JStr ''bash'', input = JObj [],
                      status = Denied, registeredAt = 1, resolvedAt = Some 10\<rparr>),
          (''new'', \<lparr>approvalId = ''new'', toolName = JStr ''bash'', input = JObj [],
                     status = Pending, registeredAt = 200000, resolvedAt = None\<rparr>)]"
proof -
  have wf: "wf_registry three_records"
    by (simp add: wf_registry_def three_records_def)
  show ?thesis using wf sweep_removes_exactly_stale[OF wf, of 300001]
    by (simp add: three_records_def)
qed

section \<open>What every reachable registry satisfies\<close>

lemma set_update_subset: "set (AList.update k v al) \<subseteq> insert (k, v) (set al)"
  by (induction al) auto

lemma set_delete_subset: "set (AList.delete k al) \<subseteq> set al"
  by (auto simp: AList.delete_eq)

lemma set_fold_sweep_subset: "set (fold (sweep_step t) xs reg) \<subseteq> set reg"
proof (induction xs arbitrary: reg)
  case Nil
  then show ?case by simp
next
  case (Cons x xs)
  have "set (fold (sweep_step t) xs (sweep_step t x reg)) \<subseteq> set (sweep_step t x reg)"
    by (rule Cons.IH)
  also have "\<dots> \<subseteq> set reg"
    using set_delete_subset[of "fst x" reg] by (auto simp: sweep_step_def)
  finally show ?case by simp
qed

lemma stamped_fresh:
  "stamped \<lparr>approvalId = aid, toolName = tn, input = inp, status = Pending,
            registeredAt = now, resolvedAt = None\<rparr>"
  by (simp add: stamped_def)

lemma stamped_resolved:
  "s \<noteq> Pending \<Longrightarrow> stamped (a\<lparr>status := s, resolvedAt := Some now\<rparr>)"
  by (simp add: stamped_def)

lemma stamped_update:
  assumes "\<forall>e \<in> set reg. stamped (snd e)" "stamped v"
  shows "\<forall>e \<in> set (AList.update k v reg). stamped (snd e)"
  using assms set_update_subset[of k v reg] by auto

lemma stamped_delete:
  assumes "\<forall>e \<in> set reg. stamped (snd e)"
  shows "\<forall>e \<in> set (AList.delete k reg). stamped (snd e)"
  using assms set_delete_subset[of k reg] by auto

lemma stamped_handleRequest:
  assumes "\<forall>e \<in> set reg. stamped (snd e)"
  shows "\<forall>e \<in> set (snd (handleRequest P now req reg)). stamped (snd e)"
proof -
  have reg: "\<forall>e \<in> set (snd (registerRoute P now aid b reg)). stamped (snd e)" for aid b
    unfolding registerRoute_def Let_def
    by (auto split: option.splits sum.splits intro!: stamped_update[OF assms, rule_format]
        simp: assms stamped_fresh)
  have st: "snd (statusRoute aid reg) = reg" for aid
    by (simp add: statusRoute_def split: option.splits)
  have ap: "\<forall>e \<in> set (snd (approveRoute now aid reg)). stamped (snd e)" for aid
    unfolding approveRoute_def
    by (auto split: option.splits intro!: stamped_update[OF assms, rule_format]
        simp: assms stamped_resolved)
  have dn: "\<forall>e \<in> set (snd (denyRoute now aid reg)). stamped (snd e)" for aid
    unfolding denyRoute_def
    by (auto split: option.splits intro!: stamped_update[OF assms, rule_format]
        simp: assms stamped_resolved)
  have cl: "\<forall>e \<in> set (snd (cleanupRoute ps reg)). stamped (snd e)" for ps
    unfolding cleanupRoute_def
    using assms stamped_delete[OF assms] by (auto split: option.splits)
  show ?thesis
    unfolding handleRequest_def Let_def
    using reg st ap dn cl assms by simp
qed

lemma stamped_resolveApproval:
  assumes "\<forall>e \<in> set reg. stamped (snd e)"
  shows "\<forall>e \<in> set (snd (resolveApproval now aid approved reg)). stamped (snd e)"
  unfolding resolveApproval_def
  by (auto split: option.splits intro!: stamped_update[OF assms, rule_format]
      simp: assms stamped_resolved)

lemma stamped_sweep:
  assumes "\<forall>e \<in> set reg. stamped (snd e)"
  shows "\<forall>e \<in> set (sweep now reg). stamped (snd e)"
  using assms set_fold_sweep_subset[of "now - 5 * 60 * 1000" reg reg] by (auto simp: sweep_def)

lemma stamped_apply_event:
  assumes "\<forall>e \<in> set reg. stamped (snd e)"
  shows "\<forall>e \<in> set (apply_event P ev reg). stamped (snd e)"
  using stamped_handleRequest[OF assms] stamped_resolveApproval[OF assms] stamped_sweep[OF assms]
  by (cases ev) simp_all

lemma stamped_run_events:
  assumes "\<forall>e \<in> set reg. stamped (snd e)"
  shows "\<forall>e \<in> set (run_events P evs reg). stamped (snd e)"
  using assms unfolding run_events_def
proof (induction evs arbitrary: reg)
  case Nil
  then show ?case by simp
next
  case (Cons ev evs)
  show ?case using Cons.IH[OF stamped_apply_event[OF Cons.prems]] by simp
qed

lemma scenario_result:
  "run_events sample_parse scenario []
     = [(''a1'', \<lparr>approvalId = ''a1'', toolName = JStr ''unknown'', input = JObj [],
                  status = Approved, registeredAt = 0, resolvedAt = Some 2\<rparr>),
        (''b2'', \<lparr>approvalId = ''b2'', toolName = JStr ''unknown'', input = JObj [],
                  status = Pending, registeredAt = 1, resolvedAt = None\<rparr>)]"
  by (simp add: run_events_def scenario_def route_defs sample_parse_def resolveApproval_def
      sweep_def sweep_step_def)

text \<open>
  C7. Starting from the empty Map, after any sequence of requests to the endpoint (register,
  approve, deny, cleanup and all others), calls of \<open>resolveApproval\<close> and sweeps, every
  stored record has \<open>resolvedAt\<close> if and only if its status is not pending.
\<close>

theorem resolvedAt_iff_not_pending:
  "\<forall>e \<in> set (run_events JSON_parse evs []).
     (resolvedAt (snd e) \<noteq> None) = (status (snd e) \<noteq> Pending)"
  using stamped_run_events[of "[]" JSON_parse evs] by (simp add: stamped_def)

theorem resolvedAt_iff_not_pending_witness:
  "(''a1'', \<lparr>approvalId = ''a1'', toolName = JStr ''unknown'', input = JObj [],
             status = Approved, registeredAt = 0, resolvedAt = Some 2\<rparr>)
     \<in> set (run_events sample_parse scenario [])
   \<and> (''b2'', \<lparr>approvalId = ''b2'', toolName = JStr ''unknown'', input = JObj [],
               status = Pending, registeredAt = 1, resolvedAt = None\<rparr>)
     \<in> set (run_events sample_parse scenario [])
   \<and> (resolvedAt (snd (hd (run_events sample_parse scenario []))) \<noteq> None)
       = (status (snd (hd (run_events sample_parse scenario []))) \<noteq> Pending)"
  using resolvedAt_iff_not_pending[of sample_parse scenario] scenario_result by simp

text \<open>Every operation keeps the keys of the Map distinct.\<close>

lemma wf_handleRequest: "wf_registry reg \<Longrightarrow> wf_registry (snd (handleRequest P now req reg))"
  by (auto simp: wf_registry_def handleRequest_def registerRoute_def statusRoute_def
      approveRoute_def denyRoute_def cleanupRoute_def Let_def distinct_update distinct_delete
      split: option.splits sum.splits)

lemma wf_fold_sweep: "wf_registry reg \<Longrightarrow> wf_registry (fold (sweep_step t) xs reg)"
  by (induction xs arbitrary: reg) (auto simp: wf_registry_def sweep_step_def distinct_delete)

lemma wf_apply_event: "wf_registry reg \<Longrightarrow> wf_registry (apply_event P ev reg)"
proof (cases ev)
  case (Request now req)
  assume "wf_registry reg"
  then show ?thesis using wf_handleRequest by (simp add: Request)
next
  case (Resolve now aid approved)
  assume "wf_registry reg"
  then show ?thesis
    by (auto simp: Resolve resolveApproval_def wf_registry_def distinct_update
        split: option.splits)
next
  case (Sweep now)
  assume "wf_registry reg"
  then show ?thesis using wf_fold_sweep by (simp add: Sweep sweep_def)
qed

lemma wf_run_events: "wf_registry reg \<Longrightarrow> wf_registry (run_events P evs reg)"
  unfolding run_events_def by (induction evs arbitrary: reg) (auto intro: wf_apply_event)

lemma wf_reachable: "wf_registry (run_events P evs [])"
  by (rule wf_run_events) (simp add: wf_registry_def)

section \<open>The polling waiter\<close>

lemma poll_decision_None_iff: "poll_decision reply = None \<longleftrightarrow> \<not> reports_terminal reply"
  by (auto simp: poll_decision_def reports_terminal_def own_prop_def split: sum.splits)

text \<open>The status route's answer for an id that is absent or pending is not terminal.\<close>

lemma status_route_not_terminal:
  assumes "getApprovalStatus aid reg = None \<or> getApprovalStatus aid reg = Some Pending"
  shows "\<not> reports_terminal (Inr (the (payload (fst (statusRoute aid reg)))))"
  using assms
  by (auto simp: getApprovalStatus_def statusRoute_def json_response_def reports_terminal_def
      own_prop_def split: option.splits)

lemma poll_loop_timeout:
  "(\<forall>k. poll_decision (status_reply env k) = None) \<Longrightarrow>
     response (poll_loop env s t now n) = timed_out
       \<and> t \<le> finishedAt (poll_loop env s t now n) - s"
proof (induction env s t now n rule: poll_loop.induct)
  case (1 env s t now n)
  have none: "poll_decision (status_reply env n) = None"
    using "1.prems" by simp
  show ?case
  proof (cases "now - s < t")
    case True
    have step: "poll_loop env s t now n
      = poll_loop env s t
          (now + int (fetch_ms env n) + int pollInterval + int (timer_late env n)) (Suc n)"
      using True none by (simp add: poll_loop.simps[of env s t now n])
    show ?thesis unfolding step using "1.IH"[OF True none "1.prems"] .
  next
    case False
    then show ?thesis by (simp add: poll_loop.simps[of env s t now n])
  qed
qed

lemma poll_two_queries:
  assumes "\<forall>k. poll_decision (status_reply env k) = None"
    and "fetch_ms env 0 + timer_late env 0 < pollInterval"
  shows "queries (pollApprovalStatus env s (2 * int pollInterval)) = 2"
  using assms
  by (simp add: pollApprovalStatus_def pollInterval_def
      poll_loop.simps[of env s 2000 s 0] poll_loop.simps[of env s 2000 _ "Suc 0"]
      poll_loop.simps[of env s 2000 _ "Suc (Suc 0)"])

text \<open>
  When the first query and the lateness of its timer take a whole poll interval or more,
  the budget of two intervals is used up after one query.
\<close>

lemma poll_one_query_when_slow:
  assumes "\<forall>k. poll_decision (status_reply env k) = None"
    and "pollInterval \<le> fetch_ms env 0 + timer_late env 0"
  shows "queries (pollApprovalStatus env s (2 * int pollInterval)) = 1"
  using assms
  by (simp add: pollApprovalStatus_def pollInterval_def
      poll_loop.simps[of env s 2000 s 0] poll_loop.simps[of env s 2000 _ "Suc 0"])

lemma timed_out_text: "sublist ''timed out'' ''Permission request timed out''"
proof -
  have "''Permission request timed out'' = ''Permission request '' @ ''timed out'' @ []"
    by simp
  then show ?thesis unfolding sublist_def by blast
qed

text \<open>
  C3, as stated: for an id that never becomes terminal, a waiter with a budget of two
  units and a poll interval of one unit issues exactly two status queries before it
  returns deny-by-timeout. Against an endpoint that takes one second to answer, the
  budget of 2000 ms is spent after the first query and its wait: one query is issued.
\<close>

theorem poll_slow_endpoint_single_query:
  "(\<forall>n. \<not> reports_terminal (status_reply slow_endpoint n))
   \<and> response (pollApprovalStatus slow_endpoint 0 2000) = timed_out
   \<and> queries (pollApprovalStatus slow_endpoint 0 2000) = 1"
proof -
  have h: "\<forall>n. \<not> reports_terminal (status_reply slow_endpoint n)"
    by (simp add: slow_endpoint_def reports_terminal_def own_prop_def)
  then have none: "\<forall>k. poll_decision (status_reply slow_endpoint k) = None"
    by (simp add: poll_decision_None_iff)
  have slow: "pollInterval \<le> fetch_ms slow_endpoint 0 + timer_late slow_endpoint 0"
    by (simp add: slow_endpoint_def pollInterval_def)
  have q: "queries (pollApprovalStatus slow_endpoint 0 2000) = 1"
    using poll_one_query_when_slow[OF none slow, of 0] by (simp add: pollInterval_def)
  have r: "response (pollApprovalStatus slow_endpoint 0 2000) = timed_out"
    using poll_loop_timeout[OF none, of 0 2000 0 0] by (simp add: pollApprovalStatus_def)
  show ?thesis using h q r by simp
qed

text \<open>
  C3, amended: when no status query ever reports a terminal status,
  \<open>pollApprovalStatus\<close> returns the deny response whose message is
  \<open>Permission request timed out\<close>, and it returns only once the clock has advanced by
  the whole timeout budget. With a budget of two poll intervals it issues exactly two
  status queries, provided the first query and the lateness of its timer together take
  less than one poll interval (as they do when queries are answered at once and timers
  are exact).
\<close>

theorem poll_times_out_after_budget:
  assumes "\<forall>n. \<not> reports_terminal (status_reply env n)"
  shows "response (pollApprovalStatus env startTime timeoutMs)
           = \<lparr>behavior = Deny, updatedInput = None,
              message = Some ''Permission request timed out''\<rparr>
       \<and> sublist ''timed out''
           (the (message (response (pollApprovalStatus env startTime timeoutMs))))
       \<and> timeoutMs \<le> finishedAt (pollApprovalStatus env startTime timeoutMs) - startTime
       \<and> (timeoutMs = 2 * int pollInterval \<and> fetch_ms env 0 + timer_late env 0 < pollInterval
            \<longrightarrow> queries (pollApprovalStatus env startTime timeoutMs) = 2)"
proof -
  have none: "\<forall>k. poll_decision (status_reply env k) = None"
    using assms by (simp add: poll_decision_None_iff)
  have r: "response (pollApprovalStatus env startTime timeoutMs) = timed_out"
    and t: "timeoutMs \<le> finishedAt (pollApprovalStatus env startTime timeoutMs) - startTime"
    using poll_loop_timeout[OF none, of startTime timeoutMs startTime 0]
    by (simp_all add: pollApprovalStatus_def)
  show ?thesis
    using t poll_two_queries[OF none, of startTime]
    by (auto simp: r timed_out_def timed_out_text)
qed

theorem poll_times_out_after_budget_witness:
  "(\<forall>n. \<not> reports_terminal (status_reply always_pending n))
   \<and> response (pollApprovalStatus always_pending 0 2000) = timed_out
   \<and> 2000 \<le> finishedAt (pollApprovalStatus always_pending 0 2000)
   \<and> queries (pollApprovalStatus always_pending 0 2000) = 2"
proof -
  have h: "\<forall>n. \<not> reports_terminal (status_reply always_pending n)"
    by (simp add: always_pending_def reports_terminal_def own_prop_def)
  have e: "fetch_ms always_pending 0 + timer_late always_pending 0 < pollInterval"
    by (simp add: always_pending_def pollInterval_def)
  show ?thesis
    using h e poll_times_out_after_budget[OF h, of 0 2000]
    by (simp add: pollInterval_def timed_out_def)
qed

section \<open>Failing closed\<close>

text \<open>
  C5. When the register call fails (the transport throws, the reply cannot be decoded, or
  it carries no truthy \<open>success\<close>), \<open>handlePermissionPrompt\<close> returns the deny response
  \<open>Failed to register approval request\<close>, and the register call is the only call it has
  made: nothing is posted, nothing is polled, nothing is allowed. The Slack context is one
  that lets the function reach the register call.
\<close>

theorem register_failure_fails_closed:
  assumes "read_slack_context JSON_parse (SLACK_CONTEXT env) = Inr ctx"
    and "registration_failed (register_reply env)"
  shows "handlePermissionPrompt JSON_parse env tool_name inp
           = ([RegisterCall (newApprovalId env)],
              Inr \<lparr>behavior = Deny, updatedInput = None,
                   message = Some ''Failed to register approval request''\<rparr>)"
proof -
  have "\<not> truthy_opt (registerApproval (register_reply env))"
    using assms(2)
    by (auto simp: registration_failed_def registerApproval_def own_prop_def split: sum.splits)
  then show ?thesis
    using assms(1) by (simp add: handlePermissionPrompt_def failed_to_register_def Let_def)
qed

theorem register_failure_fails_closed_witness:
  "read_slack_context sample_parse (SLACK_CONTEXT unreachable_endpoint) = Inr (JObj [])
   \<and> registration_failed (register_reply unreachable_endpoint)
   \<and> handlePermissionPrompt sample_parse unreachable_endpoint ''Bash'' (Some (JObj []))
       = ([RegisterCall ''approval_1_abc''],
          Inr \<lparr>behavior = Deny, updatedInput = None,
               message = Some ''Failed to register approval request''\<rparr>)"
proof -
  have a: "read_slack_context sample_parse (SLACK_CONTEXT unreachable_endpoint) = Inr (JObj [])"
    by (simp add: read_slack_context_def unreachable_endpoint_def)
  have b: "registration_failed (register_reply unreachable_endpoint)"
    by (simp add: registration_failed_def unreachable_endpoint_def)
  show ?thesis
    using a b register_failure_fails_closed[OF a b, of "''Bash''" "Some (JObj [])"]
    by (simp add: unreachable_endpoint_def)
qed

end
